theory Spec2Isabelle
  imports
    Main
    "HOL-Library.Char_ord"
    "HOL-Library.List_Lexorder"
    "HOL-Library.Product_Lexorder"
begin

section \<open>The Python entry point (cpp_linter/entry_point.py)\<close>

text \<open>
  The module holds one function,
  \<^verbatim>\<open>def main(): sys.exit(run.main(sys.argv))\<close>.
  The binding \<^verbatim>\<open>run.main\<close> is the compiled core; it is a parameter of
  the model. A call of it either returns an integer or raises, so its result is a sum
  with the raised exception on the left. The effect of the call that matters here is
  which list it was given: the process state keeps a log of the argument lists passed
  to \<^verbatim>\<open>run.main\<close>, next to \<^verbatim>\<open>sys.argv\<close> itself.
\<close>

type_synonym engine = "string list \<Rightarrow> string + int"

record py_process =
  sys_argv :: "string list"
  run_main_calls :: "string list list"

text \<open>
  How the interpreter ends: \<^verbatim>\<open>sys.exit(n)\<close> raises SystemExit carrying
  the integer \<open>n\<close>, which is the exit status the interpreter hands to the operating
  system; an exception that escapes \<^verbatim>\<open>main\<close> ends it with a traceback.
\<close>

datatype py_outcome = SystemExit int | Uncaught string

definition call_run_main ::
  "engine \<Rightarrow> string list \<Rightarrow> py_process \<Rightarrow> (string + int) \<times> py_process" where
  "call_run_main run args p =
     (run args, p\<lparr>run_main_calls := run_main_calls p @ [args]\<rparr>)"

definition sys_exit :: "int \<Rightarrow> py_outcome" where
  "sys_exit code = SystemExit code"

definition main :: "engine \<Rightarrow> py_process \<Rightarrow> py_outcome \<times> py_process" where
  "main run p =
     (case call_run_main run (sys_argv p) p of
        (Inl exn, p') \<Rightarrow> (Uncaught exn, p')
      | (Inr code, p') \<Rightarrow> (sys_exit code, p'))"

section \<open>The documentation build hook (docs/conf.py)\<close>

text \<open>
  \<^verbatim>\<open>setup(app)\<close> runs
  \<^verbatim>\<open>subprocess.run(["cargo", "run", "--example", "cli_doc"], check=True, cwd=...)\<close>
  with the working directory
  \<^verbatim>\<open>str(Path(__file__).parent.parent.parent / "cpp-linter-lib")\<close>.
  A path is its anchor (the root, or empty for a relative path) and its parts.
\<close>

record pure_path =
  anchor :: string
  parts :: "string list"

definition parent :: "pure_path \<Rightarrow> pure_path" where
  "parent p = p\<lparr>parts := butlast (parts p)\<rparr>"

definition truediv :: "pure_path \<Rightarrow> string \<Rightarrow> pure_path" where
  "truediv p name = p\<lparr>parts := parts p @ [name]\<rparr>"

fun join_sep :: "string list \<Rightarrow> string" where
  "join_sep [] = []"
| "join_sep [x] = x"
| "join_sep (x # y # ys) = x @ ''/'' @ join_sep (y # ys)"

definition str_path :: "pure_path \<Rightarrow> string" where
  "str_path p =
     (if anchor p = [] \<and> parts p = [] then ''.'' else anchor p @ join_sep (parts p))"

text \<open>
  \<^verbatim>\<open>subprocess.run\<close>: the operating system either fails to start the
  command (OSError) or runs it to a return code. With \<^verbatim>\<open>check=True\<close> a
  non-zero return code raises CalledProcessError, which carries the return code and the
  command; otherwise a CompletedProcess is returned.
\<close>

datatype py_exn = OSError | CalledProcessError int "string list"

record completed_process =
  args :: "string list"
  returncode :: int

type_synonym os_spawn = "string list \<Rightarrow> string \<Rightarrow> int option"

definition subprocess_run ::
  "os_spawn \<Rightarrow> string list \<Rightarrow> bool \<Rightarrow> string \<Rightarrow> py_exn + completed_process" where
  "subprocess_run spawn cmd check cwd =
     (case spawn cmd cwd of
        None \<Rightarrow> Inl OSError
      | Some rc \<Rightarrow>
          if check \<and> rc \<noteq> 0 then Inl (CalledProcessError rc cmd)
          else Inr \<lparr>args = cmd, returncode = rc\<rparr>)"

definition cli_doc_cmd :: "string list" where
  "cli_doc_cmd = [''cargo'', ''run'', ''--example'', ''cli_doc'']"

definition conf_setup :: "os_spawn \<Rightarrow> pure_path \<Rightarrow> py_exn + unit" where
  "conf_setup spawn file =
     (case subprocess_run spawn cli_doc_cmd True
             (str_path (truediv (parent (parent (parent file))) ''cpp-linter-lib'')) of
        Inl exn \<Rightarrow> Inl exn
      | Inr _ \<Rightarrow> Inr ())"

text \<open>
  Sphinx calls the \<^verbatim>\<open>setup\<close> of conf.py while it initialises the
  application; an exception that escapes it aborts the build before any page is read.
\<close>

datatype build_result = BuildAborted py_exn | BuildProceeds

definition docs_build :: "os_spawn \<Rightarrow> pure_path \<Rightarrow> build_result" where
  "docs_build spawn file =
     (case conf_setup spawn file of Inl exn \<Rightarrow> BuildAborted exn | Inr _ \<Rightarrow> BuildProceeds)"

section \<open>The core engine behind \<open>run.main\<close>\<close>

text \<open>
  The core (the Rust library that \<^verbatim>\<open>run.main\<close> binds) is not among the
  sources. Its Report Aggregator and its Diff Mapper are modelled below from the
  specification (sections 3, 4.5, 4.6 and 6).
\<close>

text \<open>Modelled from the spec: the severity of a Diagnostic, \<open>info|warning|error\<close>
  (section 3); the core's own type is missing from the sources.\<close>

datatype severity = Info | Warning | Error

text \<open>Modelled from the spec: the optional suggested replacement of a Diagnostic, a byte
  range and the new text (section 3); the core's own type is missing.\<close>

record replacement =
  byte_first :: nat
  byte_last :: nat
  new_text :: string

text \<open>Modelled from the spec: the Diagnostic record of section 3 (source file, 1-based
  line and column, severity, originating tool, rule identifier, message text, optional
  suggested replacement); the core's own type is missing.\<close>

record diagnostic =
  diag_file :: string
  diag_line :: nat
  diag_column :: nat
  diag_severity :: severity
  diag_tool :: string
  diag_rule :: string
  diag_message :: string
  diag_replacement :: "replacement option"

text \<open>Modelled from the spec: the uniqueness key of a Diagnostic,
  (file, line, column, tool, rule) (section 3); the core's deduplication code is
  missing.\<close>

definition uniqueness_key :: "diagnostic \<Rightarrow> string \<times> nat \<times> nat \<times> string \<times> string" where
  "uniqueness_key d = (diag_file d, diag_line d, diag_column d, diag_tool d, diag_rule d)"

text \<open>Modelled from the spec: the sort key of the Report Aggregator, file path, then
  line, then column, then tool name (section 4.6); the core's sorting code is missing.
  Tuples and strings are compared lexicographically, characters by their codes.\<close>

definition ordering_key :: "diagnostic \<Rightarrow> string \<times> nat \<times> nat \<times> string" where
  "ordering_key d = (diag_file d, diag_line d, diag_column d, diag_tool d)"

text \<open>Modelled from the spec: deduplication that keeps the first occurrence of every key
  (section 4.6), as one pass that remembers the keys already seen; the core's
  deduplication code is missing.\<close>

fun dedup_seen :: "'k list \<Rightarrow> ('a \<Rightarrow> 'k) \<Rightarrow> 'a list \<Rightarrow> 'a list" where
  "dedup_seen seen key [] = []"
| "dedup_seen seen key (x # xs) =
     (if key x \<in> set seen then dedup_seen seen key xs
      else x # dedup_seen (key x # seen) key xs)"

text \<open>Modelled from the spec: "Deduplicates exact (file, line, column, tool, rule)
  collisions, keeping the first occurrence" (section 4.6); the core's code is missing.\<close>

definition deduplicate :: "diagnostic list \<Rightarrow> diagnostic list" where
  "deduplicate ds = dedup_seen [] uniqueness_key ds"

text \<open>Modelled from the spec: the Report Aggregator's collection (section 4.6): the
  Diagnostics of all tools and files (one list per tool invocation) are merged, sorted
  stably by the sort key, then deduplicated; the core's aggregator is missing. The stable
  sort is the library's insertion sort \<open>sort_key\<close>.\<close>

definition aggregate :: "diagnostic list list \<Rightarrow> diagnostic list" where
  "aggregate dss = deduplicate (sort_key ordering_key (concat dss))"

text \<open>Modelled from the spec: one changed-line range of a DiffHunk (sections 3 and 4.5),
  given by its first and its last changed line, both absolute line numbers of the current
  file content; the core's own type is missing.\<close>

record diff_hunk =
  hunk_first :: nat
  hunk_last :: nat

text \<open>Modelled from the spec: the changed-line set of a file, the union of its ranges
  (section 6: "file \<open>\<rightarrow>\<close> set of changed line numbers"); the core's diff handling is
  missing.\<close>

definition changed_lines :: "diff_hunk list \<Rightarrow> nat set" where
  "changed_lines hs = (\<Union>h \<in> set hs. {hunk_first h .. hunk_last h})"

text \<open>Modelled from the spec: the Diff Mapper's test whether a line lies in one of the
  ranges of its file (section 4.5: "intersects each Diagnostic's line with the DiffHunk
  ranges for its file"); the core's Diff Mapper is missing.\<close>

definition line_changed :: "diff_hunk list \<Rightarrow> nat \<Rightarrow> bool" where
  "line_changed hs l = list_ex (\<lambda>h. hunk_first h \<le> l \<and> l \<le> hunk_last h) hs"

text \<open>Modelled from the spec: what the Diff Mapper hands on (section 4.5): the
  externally visible Diagnostics and the internal count of all Diagnostics; the core's
  own type is missing.\<close>

record scoped_diagnostics =
  visible :: "diagnostic list"
  all_count :: nat

text \<open>Modelled from the spec: the Diff Mapper (section 4.5). With diff-scope enabled a
  Diagnostic on an unchanged line is dropped from the visible ones but still counted;
  with diff-scope disabled the stage passes everything through. The core's Diff Mapper
  is missing; the diff is the read-only input of section 6, one list of ranges per
  file.\<close>

definition diff_map ::
  "bool \<Rightarrow> (string \<Rightarrow> diff_hunk list) \<Rightarrow> diagnostic list \<Rightarrow> scoped_diagnostics" where
  "diff_map diff_scope diff ds =
     (if diff_scope
      then \<lparr>visible = filter (\<lambda>d. line_changed (diff (diag_file d)) (diag_line d)) ds,
            all_count = length ds\<rparr>
      else \<lparr>visible = ds, all_count = length ds\<rparr>)"

section \<open>Theorems about the entry point\<close>

text \<open>
  C1. For every argument list, \<open>main\<close> passes \<open>sys.argv\<close> to \<open>run.main\<close> unmodified:
  the one call it makes is logged with exactly \<open>sys.argv\<close>, and \<open>sys.argv\<close> itself is
  left as it was. Whenever the engine returns a code, the process ends by SystemExit
  with exactly that code.
\<close>

theorem main_forwards_argv_and_exit_code:
  "run_main_calls (snd (main run p)) = run_main_calls p @ [sys_argv p]
   \<and> sys_argv (snd (main run p)) = sys_argv p
   \<and> (\<forall>code. run (sys_argv p) = Inr code \<longrightarrow> fst (main run p) = SystemExit code)"
  by (simp add: main_def call_run_main_def sys_exit_def split: sum.splits)

theorem main_forwards_argv_and_exit_code_witness:
  "run_main_calls
     (snd (main (\<lambda>a. Inr (int (length a)))
        \<lparr>sys_argv = [''cpp-linter'', ''--version''], run_main_calls = []\<rparr>))
     = [[''cpp-linter'', ''--version'']]
   \<and> fst (main (\<lambda>a. Inr (int (length a)))
        \<lparr>sys_argv = [''cpp-linter'', ''--version''], run_main_calls = []\<rparr>)
     = SystemExit 2"
  using main_forwards_argv_and_exit_code
    [of "\<lambda>a. Inr (int (length a))"
        "\<lparr>sys_argv = [''cpp-linter'', ''--version''], run_main_calls = []\<rparr>"]
  by simp

text \<open>
  C2. The list handed to \<open>run.main\<close> is the whole of \<open>sys.argv\<close>, its first element
  (the program name) included: when \<open>sys.argv\<close> is \<open>prog # rest\<close>, the engine receives
  \<open>prog # rest\<close>, so the first element it sees is \<open>prog\<close>.
\<close>

theorem main_keeps_program_name:
  assumes "sys_argv p = prog # rest"
  shows "last (run_main_calls (snd (main run p))) = prog # rest
         \<and> hd (last (run_main_calls (snd (main run p)))) = prog"
  using assms by (simp add: main_def call_run_main_def split: sum.splits)

theorem main_keeps_program_name_witness:
  "hd (last (run_main_calls
     (snd (main (\<lambda>a. Inr 0)
        \<lparr>sys_argv = [''path/to/cpp-linter'', ''-h''], run_main_calls = []\<rparr>))))
     = ''path/to/cpp-linter''"
  using main_keeps_program_name
    [of "\<lparr>sys_argv = [''path/to/cpp-linter'', ''-h''], run_main_calls = []\<rparr>"
        "''path/to/cpp-linter''" "[''-h'']" "\<lambda>a. Inr 0"]
  by simp

section \<open>Theorems about the documentation build hook\<close>

text \<open>
  C10. \<open>setup\<close> runs the command \<open>cargo run --example cli_doc\<close> with \<open>check=True\<close>:
  whenever the subprocess exits with a non-zero status, \<open>setup\<close> raises
  CalledProcessError (with that status and that command) instead of returning, and the
  documentation build is aborted.
\<close>

theorem setup_raises_on_nonzero_exit:
  assumes "spawn cli_doc_cmd
             (str_path (truediv (parent (parent (parent file))) ''cpp-linter-lib'')) = Some rc"
      and "rc \<noteq> 0"
  shows "conf_setup spawn file = Inl (CalledProcessError rc cli_doc_cmd)
         \<and> docs_build spawn file = BuildAborted (CalledProcessError rc cli_doc_cmd)"
  using assms by (simp add: docs_build_def conf_setup_def subprocess_run_def)

theorem setup_raises_on_nonzero_exit_witness:
  "conf_setup (\<lambda>cmd cwd. if cwd = ''/repo/cpp-linter-lib'' then Some 101 else None)
     \<lparr>anchor = ''/'', parts = [''repo'', ''cpp-linter-py'', ''docs'', ''conf.py'']\<rparr>
     = Inl (CalledProcessError 101 [''cargo'', ''run'', ''--example'', ''cli_doc''])"
  using setup_raises_on_nonzero_exit
    [of "\<lambda>cmd cwd. if cwd = ''/repo/cpp-linter-lib'' then Some 101 else None"
        "\<lparr>anchor = ''/'', parts = [''repo'', ''cpp-linter-py'', ''docs'', ''conf.py'']\<rparr>"
        101]
  by (simp add: str_path_def truediv_def parent_def cli_doc_cmd_def)

section \<open>Theorems about the Report Aggregator\<close>

subsection \<open>Deduplication keeps the first occurrence of every key\<close>

lemma dedup_seen_keys:
  "key ` set (dedup_seen seen key xs) = key ` set xs - set seen"
  by (induction xs arbitrary: seen) auto

lemma dedup_seen_subset: "set (dedup_seen seen key xs) \<subseteq> set xs"
  by (induction xs arbitrary: seen) auto

lemma dedup_seen_distinct: "distinct (map key (dedup_seen seen key xs))"
proof (induction xs arbitrary: seen)
  case Nil
  show ?case by simp
next
  case (Cons x xs)
  have "key x \<notin> key ` set (dedup_seen (key x # seen) key xs)"
    unfolding dedup_seen_keys by simp
  with Cons show ?case by simp
qed

lemma dedup_seen_first:
  "d \<in> set (dedup_seen seen key xs) \<Longrightarrow> find (\<lambda>e. key e = key d) xs = Some d"
proof (induction xs arbitrary: seen)
  case Nil
  then show ?case by simp
next
  case (Cons x xs)
  show ?case
  proof (cases "key x \<in> set seen")
    case True
    with Cons.prems have in_rest: "d \<in> set (dedup_seen seen key xs)" by simp
    then have "key d \<in> key ` set xs - set seen"
      unfolding dedup_seen_keys [symmetric] by (rule imageI)
    with True have "key x \<noteq> key d" by auto
    with Cons.IH [OF in_rest] show ?thesis by simp
  next
    case False
    with Cons.prems consider "d = x" | "d \<in> set (dedup_seen (key x # seen) key xs)"
      by auto
    then show ?thesis
    proof cases
      case 1
      then show ?thesis by simp
    next
      case 2
      then have "key d \<in> key ` set xs - set (key x # seen)"
        unfolding dedup_seen_keys [symmetric] by (rule imageI)
      then have "key x \<noteq> key d" by auto
      with Cons.IH [OF 2] show ?thesis by simp
    qed
  qed
qed

lemma dedup_seen_sorted:
  "sorted (map f xs) \<Longrightarrow> sorted (map f (dedup_seen seen key xs))"
proof (induction xs arbitrary: seen)
  case Nil
  show ?case by simp
next
  case (Cons x xs)
  have "set (dedup_seen (key x # seen) key xs) \<subseteq> set xs"
    by (rule dedup_seen_subset)
  with Cons show ?case by auto
qed

lemma filter_dedup_seen_cong:
  assumes key_P: "\<And>x y. key x = key y \<Longrightarrow> P x = P y"
      and "\<And>y. P y \<Longrightarrow> key y \<in> set s1 \<longleftrightarrow> key y \<in> set s2"
  shows "filter P (dedup_seen s1 key xs) = filter P (dedup_seen s2 key xs)"
  using assms(2)
proof (induction xs arbitrary: s1 s2)
  case Nil
  show ?case by simp
next
  case (Cons x xs)
  show ?case
  proof (cases "P x")
    case True
    from Cons.prems [OF True] have same: "key x \<in> set s1 \<longleftrightarrow> key x \<in> set s2" .
    show ?thesis
    proof (cases "key x \<in> set s1")
      case True
      have "filter P (dedup_seen s1 key xs) = filter P (dedup_seen s2 key xs)"
        by (rule Cons.IH) (rule Cons.prems)
      with True same show ?thesis by simp
    next
      case False
      have "filter P (dedup_seen (key x # s1) key xs) = filter P (dedup_seen (key x # s2) key xs)"
      proof (rule Cons.IH)
        fix y assume "P y"
        from Cons.prems [OF this] show "key y \<in> set (key x # s1) \<longleftrightarrow> key y \<in> set (key x # s2)"
          by simp
      qed
      with False same show ?thesis by simp
    qed
  next
    case False
    let ?t1 = "if key x \<in> set s1 then s1 else key x # s1"
    let ?t2 = "if key x \<in> set s2 then s2 else key x # s2"
    have a: "filter P (dedup_seen s1 key (x # xs)) = filter P (dedup_seen ?t1 key xs)"
      using False by simp
    have b: "filter P (dedup_seen s2 key (x # xs)) = filter P (dedup_seen ?t2 key xs)"
      using False by simp
    have "filter P (dedup_seen ?t1 key xs) = filter P (dedup_seen ?t2 key xs)"
    proof (rule Cons.IH)
      fix y assume py: "P y"
      with False key_P [of y x] have ne: "key y \<noteq> key x" by auto
      from ne have "key y \<in> set ?t1 \<longleftrightarrow> key y \<in> set s1" by simp
      moreover from ne have "key y \<in> set ?t2 \<longleftrightarrow> key y \<in> set s2" by simp
      ultimately show "key y \<in> set ?t1 \<longleftrightarrow> key y \<in> set ?t2"
        using Cons.prems [OF py] by simp
    qed
    with a b show ?thesis by simp
  qed
qed

lemma filter_dedup_seen:
  assumes "\<And>x y. key x = key y \<Longrightarrow> P x = P y"
  shows "filter P (dedup_seen seen key xs) = dedup_seen seen key (filter P xs)"
proof (induction xs arbitrary: seen)
  case Nil
  show ?case by simp
next
  case (Cons x xs)
  show ?case
  proof (cases "P x")
    case True
    with Cons show ?thesis by simp
  next
    case False
    have "filter P (dedup_seen (key x # seen) key xs) = filter P (dedup_seen seen key xs)"
    proof (rule filter_dedup_seen_cong [OF assms])
      fix y assume "P y"
      with False assms [of y x] have "key y \<noteq> key x" by auto
      then show "key y \<in> set (key x # seen) \<longleftrightarrow> key y \<in> set seen" by simp
    qed
    with False Cons show ?thesis by simp
  qed
qed

lemma filter_sort_key_refines:
  assumes "\<And>x. P x \<Longrightarrow> f x = k"
  shows "filter P (sort_key f xs) = filter P xs"
proof -
  have eq: "filter P ys = filter P (filter (\<lambda>y. f y = k) ys)" for ys
    unfolding filter_filter by (rule filter_cong) (use assms in auto)
  have "filter P (sort_key f xs) = filter P (filter (\<lambda>y. f y = k) (sort_key f xs))"
    by (rule eq)
  also have "\<dots> = filter P (filter (\<lambda>y. f y = k) xs)"
    by (simp only: sort_key_stable)
  also have "\<dots> = filter P xs"
    by (rule eq [symmetric])
  finally show ?thesis .
qed

lemma find_as_filter:
  "find P xs = (case filter P xs of [] \<Rightarrow> None | x # _ \<Rightarrow> Some x)"
  by (induction xs) auto

lemma ordering_key_of_uniqueness_key:
  "uniqueness_key x = uniqueness_key y \<Longrightarrow> ordering_key x = ordering_key y"
  by (simp add: uniqueness_key_def ordering_key_def)

lemma find_sort_key_uniqueness:
  "find (\<lambda>e. uniqueness_key e = uniqueness_key d) (sort_key ordering_key xs)
     = find (\<lambda>e. uniqueness_key e = uniqueness_key d) xs"
proof -
  have "filter (\<lambda>e. uniqueness_key e = uniqueness_key d) (sort_key ordering_key xs)
          = filter (\<lambda>e. uniqueness_key e = uniqueness_key d) xs"
    by (rule filter_sort_key_refines [where k = "ordering_key d"])
       (rule ordering_key_of_uniqueness_key)
  then show ?thesis by (simp only: find_as_filter)
qed

lemma find_Some_mem: "find P xs = Some d \<Longrightarrow> d \<in> set xs"
  by (induction xs) (auto split: if_splits)

lemma dedup_seen_first_iff:
  "d \<in> set (dedup_seen [] key xs) \<longleftrightarrow> find (\<lambda>e. key e = key d) xs = Some d"
proof
  assume "d \<in> set (dedup_seen [] key xs)"
  then show "find (\<lambda>e. key e = key d) xs = Some d"
    by (rule dedup_seen_first)
next
  assume first: "find (\<lambda>e. key e = key d) xs = Some d"
  then have "d \<in> set xs" by (rule find_Some_mem)
  then have "key d \<in> key ` set xs" by (rule imageI)
  then have "key d \<in> key ` set (dedup_seen [] key xs)"
    unfolding dedup_seen_keys by simp
  then obtain e where e: "e \<in> set (dedup_seen [] key xs)" and ke: "key e = key d"
    by (elim imageE) (rule that, simp_all)
  from e have "find (\<lambda>x. key x = key e) xs = Some e"
    by (rule dedup_seen_first)
  then have "find (\<lambda>x. key x = key d) xs = Some e"
    unfolding ke .
  with first have "e = d" by simp
  with e show "d \<in> set (dedup_seen [] key xs)" by simp
qed

lemma ordering_key_le_iff:
  "ordering_key d1 \<le> ordering_key d2 \<longleftrightarrow>
     diag_file d1 < diag_file d2
     \<or> diag_file d1 = diag_file d2 \<and>
        (diag_line d1 < diag_line d2
         \<or> diag_line d1 = diag_line d2 \<and>
            (diag_column d1 < diag_column d2
             \<or> diag_column d1 = diag_column d2 \<and> diag_tool d1 \<le> diag_tool d2))"
  unfolding ordering_key_def less_eq_prod_simp by auto

lemma aggregate_sorted: "sorted (map ordering_key (aggregate dss))"
  unfolding aggregate_def deduplicate_def
  by (rule dedup_seen_sorted) (rule sorted_sort_key)

lemma aggregate_stable:
  "filter (\<lambda>d. ordering_key d = k) (aggregate dss)
     = deduplicate (filter (\<lambda>d. ordering_key d = k) (concat dss))"
proof -
  have "filter (\<lambda>d. ordering_key d = k) (aggregate dss)
          = deduplicate (filter (\<lambda>d. ordering_key d = k) (sort_key ordering_key (concat dss)))"
    unfolding aggregate_def deduplicate_def
    by (rule filter_dedup_seen) (simp add: uniqueness_key_def ordering_key_def)
  then show ?thesis by (simp only: sort_key_stable)
qed

lemma aggregate_distinct: "distinct (map uniqueness_key (aggregate dss))"
  unfolding aggregate_def deduplicate_def by (rule dedup_seen_distinct)

lemma aggregate_keys:
  "uniqueness_key ` set (aggregate dss) = uniqueness_key ` set (concat dss)"
  unfolding aggregate_def deduplicate_def dedup_seen_keys by simp

lemma aggregate_first_iff:
  "d \<in> set (aggregate dss)
     \<longleftrightarrow> find (\<lambda>e. uniqueness_key e = uniqueness_key d) (concat dss) = Some d"
  unfolding aggregate_def deduplicate_def dedup_seen_first_iff find_sort_key_uniqueness ..

lemma aggregate_keeps_rules:
  assumes "d1 \<in> set (concat dss)" "d2 \<in> set (concat dss)" "diag_rule d1 \<noteq> diag_rule d2"
  shows "\<exists>e1 \<in> set (aggregate dss). \<exists>e2 \<in> set (aggregate dss).
           e1 \<noteq> e2 \<and> uniqueness_key e1 = uniqueness_key d1
           \<and> uniqueness_key e2 = uniqueness_key d2"
proof -
  from assms(1) have "uniqueness_key d1 \<in> uniqueness_key ` set (aggregate dss)"
    unfolding aggregate_keys by (rule imageI)
  then obtain e1 where e1: "e1 \<in> set (aggregate dss)" "uniqueness_key e1 = uniqueness_key d1"
    by auto
  from assms(2) have "uniqueness_key d2 \<in> uniqueness_key ` set (aggregate dss)"
    unfolding aggregate_keys by (rule imageI)
  then obtain e2 where e2: "e2 \<in> set (aggregate dss)" "uniqueness_key e2 = uniqueness_key d2"
    by auto
  from e1(2) e2(2) assms(3) have "e1 \<noteq> e2"
    by (auto simp: uniqueness_key_def)
  with e1 e2 show ?thesis by blast
qed

text \<open>
  C3. For every collection of Diagnostics, the aggregated collection is sorted by
  (file, line, column, tool); the sort is stable (the Diagnostics of one sort key come out
  in the order of the merged input, deduplicated); no two Diagnostics of the output share
  a (file, line, column, tool, rule) key and every key of the input is still there; a
  Diagnostic is in the output exactly when it is the first of the merged input with its
  key; and two Diagnostics at the same file, line, column and tool with different rules
  are both kept, as two different entries.
\<close>

theorem aggregate_sorts_and_deduplicates:
  "(\<forall>d1 d2. ordering_key d1 \<le> ordering_key d2 \<longleftrightarrow>
       diag_file d1 < diag_file d2
       \<or> diag_file d1 = diag_file d2 \<and>
          (diag_line d1 < diag_line d2
           \<or> diag_line d1 = diag_line d2 \<and>
              (diag_column d1 < diag_column d2
               \<or> diag_column d1 = diag_column d2 \<and> diag_tool d1 \<le> diag_tool d2)))
   \<and> sorted (map ordering_key (aggregate dss))
   \<and> (\<forall>k. filter (\<lambda>d. ordering_key d = k) (aggregate dss)
            = deduplicate (filter (\<lambda>d. ordering_key d = k) (concat dss)))
   \<and> distinct (map uniqueness_key (aggregate dss))
   \<and> uniqueness_key ` set (aggregate dss) = uniqueness_key ` set (concat dss)
   \<and> (\<forall>d. d \<in> set (aggregate dss)
            \<longleftrightarrow> find (\<lambda>e. uniqueness_key e = uniqueness_key d) (concat dss) = Some d)
   \<and> (\<forall>d1 \<in> set (concat dss). \<forall>d2 \<in> set (concat dss).
         diag_file d1 = diag_file d2 \<and> diag_line d1 = diag_line d2
         \<and> diag_column d1 = diag_column d2 \<and> diag_tool d1 = diag_tool d2
         \<and> diag_rule d1 \<noteq> diag_rule d2 \<longrightarrow>
         (\<exists>e1 \<in> set (aggregate dss). \<exists>e2 \<in> set (aggregate dss).
            e1 \<noteq> e2 \<and> uniqueness_key e1 = uniqueness_key d1
            \<and> uniqueness_key e2 = uniqueness_key d2))"
proof (intro conjI allI ballI impI)
  fix d1 d2
  assume "d1 \<in> set (concat dss)" and "d2 \<in> set (concat dss)"
    and "diag_file d1 = diag_file d2 \<and> diag_line d1 = diag_line d2
         \<and> diag_column d1 = diag_column d2 \<and> diag_tool d1 = diag_tool d2
         \<and> diag_rule d1 \<noteq> diag_rule d2"
  then show "\<exists>e1 \<in> set (aggregate dss). \<exists>e2 \<in> set (aggregate dss).
            e1 \<noteq> e2 \<and> uniqueness_key e1 = uniqueness_key d1
            \<and> uniqueness_key e2 = uniqueness_key d2"
    by (intro aggregate_keeps_rules) simp_all
qed (rule ordering_key_le_iff aggregate_sorted aggregate_stable aggregate_distinct
       aggregate_keys aggregate_first_iff)+

theorem aggregate_sorts_and_deduplicates_witness:
  "aggregate
     [[\<lparr>diag_file = ''a.cpp'', diag_line = 10, diag_column = 3, diag_severity = Warning, diag_tool = ''tidy'', diag_rule = ''r1'', diag_message = ''first'', diag_replacement = None\<rparr>,
       \<lparr>diag_file = ''a.cpp'', diag_line = 10, diag_column = 3, diag_severity = Warning, diag_tool = ''tidy'', diag_rule = ''r1'', diag_message = ''again'', diag_replacement = None\<rparr>],
      [\<lparr>diag_file = ''a.cpp'', diag_line = 10, diag_column = 3, diag_severity = Warning, diag_tool = ''tidy'', diag_rule = ''r2'', diag_message = ''other'', diag_replacement = None\<rparr>,
       \<lparr>diag_file = ''a.cpp'', diag_line = 2, diag_column = 1, diag_severity = Info, diag_tool = ''format'', diag_rule = ''style'', diag_message = ''reformat'', diag_replacement = None\<rparr>]]
   = [\<lparr>diag_file = ''a.cpp'', diag_line = 2, diag_column = 1, diag_severity = Info, diag_tool = ''format'', diag_rule = ''style'', diag_message = ''reformat'', diag_replacement = None\<rparr>,
      \<lparr>diag_file = ''a.cpp'', diag_line = 10, diag_column = 3, diag_severity = Warning, diag_tool = ''tidy'', diag_rule = ''r1'', diag_message = ''first'', diag_replacement = None\<rparr>,
      \<lparr>diag_file = ''a.cpp'', diag_line = 10, diag_column = 3, diag_severity = Warning, diag_tool = ''tidy'', diag_rule = ''r2'', diag_message = ''other'', diag_replacement = None\<rparr>]
   \<and> sorted (map ordering_key (aggregate
     [[\<lparr>diag_file = ''a.cpp'', diag_line = 10, diag_column = 3, diag_severity = Warning, diag_tool = ''tidy'', diag_rule = ''r1'', diag_message = ''first'', diag_replacement = None\<rparr>,
       \<lparr>diag_file = ''a.cpp'', diag_line = 10, diag_column = 3, diag_severity = Warning, diag_tool = ''tidy'', diag_rule = ''r1'', diag_message = ''again'', diag_replacement = None\<rparr>],
      [\<lparr>diag_file = ''a.cpp'', diag_line = 10, diag_column = 3, diag_severity = Warning, diag_tool = ''tidy'', diag_rule = ''r2'', diag_message = ''other'', diag_replacement = None\<rparr>,
       \<lparr>diag_file = ''a.cpp'', diag_line = 2, diag_column = 1, diag_severity = Info, diag_tool = ''format'', diag_rule = ''style'', diag_message = ''reformat'', diag_replacement = None\<rparr>]]))
   \<and> distinct (map uniqueness_key (aggregate
     [[\<lparr>diag_file = ''a.cpp'', diag_line = 10, diag_column = 3, diag_severity = Warning, diag_tool = ''tidy'', diag_rule = ''r1'', diag_message = ''first'', diag_replacement = None\<rparr>,
       \<lparr>diag_file = ''a.cpp'', diag_line = 10, diag_column = 3, diag_severity = Warning, diag_tool = ''tidy'', diag_rule = ''r1'', diag_message = ''again'', diag_replacement = None\<rparr>],
      [\<lparr>diag_file = ''a.cpp'', diag_line = 10, diag_column = 3, diag_severity = Warning, diag_tool = ''tidy'', diag_rule = ''r2'', diag_message = ''other'', diag_replacement = None\<rparr>,
       \<lparr>diag_file = ''a.cpp'', diag_line = 2, diag_column = 1, diag_severity = Info, diag_tool = ''format'', diag_rule = ''style'', diag_message = ''reformat'', diag_replacement = None\<rparr>]]))"
  using aggregate_sorts_and_deduplicates [of
    "[[\<lparr>diag_file = ''a.cpp'', diag_line = 10, diag_column = 3, diag_severity = Warning, diag_tool = ''tidy'', diag_rule = ''r1'', diag_message = ''first'', diag_replacement = None\<rparr>,
       \<lparr>diag_file = ''a.cpp'', diag_line = 10, diag_column = 3, diag_severity = Warning, diag_tool = ''tidy'', diag_rule = ''r1'', diag_message = ''again'', diag_replacement = None\<rparr>],
      [\<lparr>diag_file = ''a.cpp'', diag_line = 10, diag_column = 3, diag_severity = Warning, diag_tool = ''tidy'', diag_rule = ''r2'', diag_message = ''other'', diag_replacement = None\<rparr>,
       \<lparr>diag_file = ''a.cpp'', diag_line = 2, diag_column = 1, diag_severity = Info, diag_tool = ''format'', diag_rule = ''style'', diag_message = ''reformat'', diag_replacement = None\<rparr>]]"]
  by (simp add: aggregate_def deduplicate_def ordering_key_def uniqueness_key_def)

section \<open>Theorems about the Diff Mapper\<close>

lemma changed_lines_iff:
  "l \<in> changed_lines hs \<longleftrightarrow> line_changed hs l"
  by (auto simp: changed_lines_def line_changed_def list_ex_iff)

text \<open>
  C4. With diff-scope enabled, a Diagnostic is among the visible ones iff it is one of the
  input and its (absolute) line is a member of the changed-line set of its file; the
  count of all Diagnostics is the size of the input, whatever was dropped. The first and
  the last line of every range are members of the set, and for a file with the one range
  \<open>lo..hi\<close> the members are exactly the lines from \<open>lo\<close> to \<open>hi\<close>.
\<close>

theorem diff_map_scoped_iff_changed:
  "(d \<in> set (visible (diff_map True diff ds))
      \<longleftrightarrow> d \<in> set ds \<and> diag_line d \<in> changed_lines (diff (diag_file d)))
   \<and> all_count (diff_map True diff ds) = length ds
   \<and> (\<forall>h \<in> set (diff f). hunk_first h \<le> hunk_last h \<longrightarrow>
         hunk_first h \<in> changed_lines (diff f) \<and> hunk_last h \<in> changed_lines (diff f))
   \<and> (l \<in> changed_lines [\<lparr>hunk_first = lo, hunk_last = hi\<rparr>] \<longleftrightarrow> lo \<le> l \<and> l \<le> hi)"
  by (auto simp: diff_map_def changed_lines_iff line_changed_def list_ex_iff)

theorem diff_map_scoped_iff_changed_witness:
  "visible (diff_map True (\<lambda>f. if f = ''a.cpp'' then [\<lparr>hunk_first = 95, hunk_last = 105\<rparr>] else [])
     [\<lparr>diag_file = ''a.cpp'', diag_line = 1, diag_column = 1, diag_severity = Warning, diag_tool = ''tidy'', diag_rule = ''r'', diag_message = ''m'', diag_replacement = None\<rparr>,
      \<lparr>diag_file = ''a.cpp'', diag_line = 100, diag_column = 1, diag_severity = Warning, diag_tool = ''tidy'', diag_rule = ''r'', diag_message = ''m'', diag_replacement = None\<rparr>])
   = [\<lparr>diag_file = ''a.cpp'', diag_line = 100, diag_column = 1, diag_severity = Warning, diag_tool = ''tidy'', diag_rule = ''r'', diag_message = ''m'', diag_replacement = None\<rparr>]
   \<and> all_count (diff_map True (\<lambda>f. if f = ''a.cpp'' then [\<lparr>hunk_first = 95, hunk_last = 105\<rparr>] else [])
     [\<lparr>diag_file = ''a.cpp'', diag_line = 1, diag_column = 1, diag_severity = Warning, diag_tool = ''tidy'', diag_rule = ''r'', diag_message = ''m'', diag_replacement = None\<rparr>,
      \<lparr>diag_file = ''a.cpp'', diag_line = 100, diag_column = 1, diag_severity = Warning, diag_tool = ''tidy'', diag_rule = ''r'', diag_message = ''m'', diag_replacement = None\<rparr>]) = 2
   \<and> 95 \<in> changed_lines ((\<lambda>f. if f = ''a.cpp'' then [\<lparr>hunk_first = 95, hunk_last = 105\<rparr>] else []) ''a.cpp'')
   \<and> 105 \<in> changed_lines ((\<lambda>f. if f = ''a.cpp'' then [\<lparr>hunk_first = 95, hunk_last = 105\<rparr>] else []) ''a.cpp'')
   \<and> 94 \<notin> changed_lines ((\<lambda>f. if f = ''a.cpp'' then [\<lparr>hunk_first = 95, hunk_last = 105\<rparr>] else []) ''a.cpp'')
   \<and> 106 \<notin> changed_lines ((\<lambda>f. if f = ''a.cpp'' then [\<lparr>hunk_first = 95, hunk_last = 105\<rparr>] else []) ''a.cpp'')"
  using diff_map_scoped_iff_changed [of
    "\<lparr>diag_file = ''a.cpp'', diag_line = 100, diag_column = 1, diag_severity = Warning, diag_tool = ''tidy'', diag_rule = ''r'', diag_message = ''m'', diag_replacement = None\<rparr>"
    "(\<lambda>f. if f = ''a.cpp'' then [\<lparr>hunk_first = 95, hunk_last = 105\<rparr>] else [])"
    "[\<lparr>diag_file = ''a.cpp'', diag_line = 1, diag_column = 1, diag_severity = Warning, diag_tool = ''tidy'', diag_rule = ''r'', diag_message = ''m'', diag_replacement = None\<rparr>,
      \<lparr>diag_file = ''a.cpp'', diag_line = 100, diag_column = 1, diag_severity = Warning, diag_tool = ''tidy'', diag_rule = ''r'', diag_message = ''m'', diag_replacement = None\<rparr>]"
    "''a.cpp''" 95 95 105]
  by (simp add: diff_map_def line_changed_def changed_lines_def)

end
